theory Spec2Isabelle
  imports Complex_Main
begin

section \<open>Column-name normalisation\<close>

text \<open>
  The first loop of \<open>clean_data\<close> rewrites every column name:
  \<^verbatim>\<open>
    col = col.lower()
    col = re.sub(r'\([^)]*\)', '', col)
    col = re.sub(r'[^a-z0-9_]', ' ', col)
    col = re.sub(r'[\s-]+', '_', col).strip('_')
  \<close>
  A name is a \<open>string\<close>; its characters are the code points 0 to 255 (Latin-1). Code
  points above 255 are outside this model.
\<close>

definition code :: "char \<Rightarrow> nat" where
  "code c = of_char c"

definition lower_char :: "char \<Rightarrow> char" where
  \<comment> \<open>\<open>str.lower\<close> on one code point: A-Z, and the Latin-1 capitals except the
      multiplication sign, move up by 32.\<close>
  "lower_char c =
     (if (65 \<le> code c \<and> code c \<le> 90) \<or> (192 \<le> code c \<and> code c \<le> 222 \<and> code c \<noteq> 215)
      then char_of (code c + 32) else c)"

definition lower :: "string \<Rightarrow> string" where
  "lower s = map lower_char s"

function remove_parens :: "string \<Rightarrow> string" where
  \<comment> \<open>\<open>re.sub(r'\([^)]*\)', '', col)\<close>: scanning from the left, an opening parenthesis
      that has a closing one somewhere after it is deleted together with everything up
      to and including the first closing one; any other character is kept.\<close>
  "remove_parens [] = []"
| "remove_parens (c # cs) =
     (if c = CHR ''('' \<and> CHR '')'' \<in> set cs
      then remove_parens (tl (dropWhile (\<lambda>d. d \<noteq> CHR '')'') cs))
      else c # remove_parens cs)"
  by pat_completeness auto
termination
  by (relation "measure length")
     (auto intro: le_imp_less_Suc order_trans [OF diff_le_self length_dropWhile_le])

definition word_char :: "char \<Rightarrow> bool" where
  \<comment> \<open>the class \<open>[a-z0-9_]\<close>\<close>
  "word_char c \<longleftrightarrow>
     (97 \<le> code c \<and> code c \<le> 122) \<or> (48 \<le> code c \<and> code c \<le> 57) \<or> c = CHR ''_''"

definition blank_others :: "string \<Rightarrow> string" where
  \<comment> \<open>\<open>re.sub(r'[^a-z0-9_]', ' ', col)\<close>\<close>
  "blank_others s = map (\<lambda>c. if word_char c then c else CHR '' '') s"

definition sep_char :: "char \<Rightarrow> bool" where
  \<comment> \<open>the class \<open>[\s-]\<close>: the white space of a \<open>str\<close> pattern (tab to carriage return,
      the four separators 28 to 31, space, NEL, no-break space) or a hyphen\<close>
  "sep_char c \<longleftrightarrow>
     (9 \<le> code c \<and> code c \<le> 13) \<or> (28 \<le> code c \<and> code c \<le> 32) \<or>
     code c = 133 \<or> code c = 160 \<or> c = CHR ''-''"

function collapse :: "string \<Rightarrow> string" where
  \<comment> \<open>\<open>re.sub(r'[\s-]+', '_', col)\<close>: every maximal run of separators becomes one
      underscore.\<close>
  "collapse [] = []"
| "collapse (c # cs) =
     (if sep_char c then CHR ''_'' # collapse (dropWhile sep_char cs)
      else c # collapse cs)"
  by pat_completeness auto
termination
  by (relation "measure length") (auto intro: le_imp_less_Suc length_dropWhile_le)

definition strip :: "string \<Rightarrow> string" where
  \<comment> \<open>\<open>.strip('_')\<close>\<close>
  "strip s = rev (dropWhile (\<lambda>c. c = CHR ''_'') (rev (dropWhile (\<lambda>c. c = CHR ''_'') s)))"

definition normalise_column :: "string \<Rightarrow> string" where
  \<comment> \<open>the body of the loop over \<open>data.columns\<close>\<close>
  "normalise_column col = strip (collapse (blank_others (remove_parens (lower col))))"


section \<open>Record sets\<close>

text \<open>
  A data frame is its row count (the length of the index) and its columns in order, each
  with its label. The raw record set is what \<open>pd.read_csv\<close> returns: a column is of
  dtype \<open>int64\<close> (no missing value), \<open>float64\<close> (\<open>None\<close> is NaN) or \<open>object\<close>
  (strings, \<open>None\<close> is NaN); values are strings, integers, floats or missing, so the
  boolean columns \<open>read_csv\<close> can infer do not occur. Numbers are carried as rationals:
  the program compares them with 100 and stores 100, and does no arithmetic of its own on
  them. Infinite values and the rounding of floats are not modelled. Frames with two
  columns of one label are outside the model: a lookup takes the first.
\<close>

type_synonym float = "rat option"

datatype dtype = int64 | float64 | object

datatype column = IntCol "int list" | FloatCol "float list" | ObjCol "string option list"

record 'c frame =
  nrows :: nat
  columns :: "(string \<times> 'c) list"

datatype error =
  KeyError "string list" | TypeError | AttributeError | ValueError | FileNotFoundError

fun dtype_of :: "column \<Rightarrow> dtype" where
  "dtype_of (IntCol xs) = int64"
| "dtype_of (FloatCol xs) = float64"
| "dtype_of (ObjCol xs) = object"

fun col_length :: "column \<Rightarrow> nat" where
  "col_length (IntCol xs) = length xs"
| "col_length (FloatCol xs) = length xs"
| "col_length (ObjCol xs) = length xs"

definition column_names :: "'c frame \<Rightarrow> string list" where
  "column_names df = map fst (columns df)"

definition get_column :: "'c frame \<Rightarrow> string \<Rightarrow> error + 'c" where
  \<comment> \<open>\<open>data[col]\<close>\<close>
  "get_column df col =
     (case map_of (columns df) col of None \<Rightarrow> Inl (KeyError [col]) | Some c \<Rightarrow> Inr c)"

definition set_column :: "'c frame \<Rightarrow> string \<Rightarrow> 'c \<Rightarrow> 'c frame" where
  \<comment> \<open>assignment to a column that exists: the column keeps its place\<close>
  "set_column df col c =
     df\<lparr>columns := map (\<lambda>(n, old). if n = col then (n, c) else (n, old)) (columns df)\<rparr>"

text \<open>
  The cleaned record set comes out of \<open>fillna\<close> and \<open>astype\<close>: an object column may
  then hold floats beside strings.
\<close>

datatype cell = NaN | Num rat | Str string

datatype cleaned_column = IntValues "int list" | FloatValues "float list" | ObjValues "cell list"

fun cleaned_length :: "cleaned_column \<Rightarrow> nat" where
  "cleaned_length (IntValues xs) = length xs"
| "cleaned_length (FloatValues xs) = length xs"
| "cleaned_length (ObjValues xs) = length xs"

text \<open>
  The numeric kernels of the libraries are parameters of the model:
  \<^item> \<open>py_float s\<close> is Python's \<open>float(s)\<close>, \<open>None\<close> where it raises \<open>ValueError\<close>;
  \<^item> \<open>py_int s\<close> is Python's \<open>int(s)\<close>, \<open>None\<close> where it raises \<open>ValueError\<close>;
  \<^item> \<open>np_median vs\<close> is the median of a non-empty list of floats;
  \<^item> \<open>knn_mean X i j\<close> is the value \<open>KNNImputer(n_neighbors=15)\<close> computes for the
    missing entry in row \<open>i\<close> of feature \<open>j\<close> of the matrix \<open>X\<close> (a list of features).
\<close>

record pylib =
  py_float :: "string \<Rightarrow> float option"
  py_int :: "string \<Rightarrow> int option"
  np_median :: "rat list \<Rightarrow> rat"
  knn_mean :: "float list list \<Rightarrow> nat \<Rightarrow> nat \<Rightarrow> rat"

section \<open>The steps of \<open>clean_data\<close>\<close>

subsection \<open>Renaming and dropping columns\<close>

definition normalised_columns :: "column frame \<Rightarrow> column frame" where
  \<comment> \<open>\<open>data.columns = normalised_columns\<close>\<close>
  "normalised_columns df =
     df\<lparr>columns := map (\<lambda>(n, c). (normalise_column n, c)) (columns df)\<rparr>"

definition dropped :: "string list" where
  "dropped = [''financial_flows_to_developing_countries'', ''renewables'']"

definition drop_columns :: "string list \<Rightarrow> column frame \<Rightarrow> error + column frame" where
  \<comment> \<open>\<open>data.drop(columns=[...], axis=1, inplace=True)\<close>: \<open>KeyError\<close> with the labels
      that are not in the frame\<close>
  "drop_columns labels df =
     (case filter (\<lambda>l. l \<notin> set (column_names df)) labels of
        [] \<Rightarrow> Inr (df\<lparr>columns := filter (\<lambda>(n, c). n \<notin> set labels) (columns df)\<rparr>)
      | l # ls \<Rightarrow> Inl (KeyError (l # ls)))"

subsection \<open>Percentage columns\<close>

definition pct_cols :: "string list" where
  "pct_cols = [''access_to_electricity'', ''access_to_clean_fuels_for_cooking'',
     ''renewable_energy_share_in_the_total_final_energy_consumption'',
     ''low_carbon_electricity'']"

fun gt_100 :: "column \<Rightarrow> error + bool list" where
  \<comment> \<open>\<open>data[col] > 100\<close>: NaN compares false; a string against an integer raises\<close>
  "gt_100 (IntCol xs) = Inr (map (\<lambda>x. x > 100) xs)"
| "gt_100 (FloatCol xs) = Inr (map (\<lambda>x. case x of None \<Rightarrow> False | Some r \<Rightarrow> r > 100) xs)"
| "gt_100 (ObjCol xs) =
     (if list_ex (\<lambda>x. x \<noteq> None) xs then Inl TypeError else Inr (map (\<lambda>x. False) xs))"

fun assign_100 :: "bool list \<Rightarrow> column \<Rightarrow> column" where
  \<comment> \<open>\<open>data.loc[mask, col] = 100\<close>; the selection of an object column is empty\<close>
  "assign_100 sel (IntCol xs) = IntCol (map2 (\<lambda>m x. if m then 100 else x) sel xs)"
| "assign_100 sel (FloatCol xs) = FloatCol (map2 (\<lambda>m x. if m then Some 100 else x) sel xs)"
| "assign_100 sel (ObjCol xs) = ObjCol xs"

fun fix_percentages :: "string list \<Rightarrow> column frame \<Rightarrow> error + column frame" where
  \<comment> \<open>the loop \<open>for col in pct_cols\<close>\<close>
  "fix_percentages [] df = Inr df"
| "fix_percentages (col # cols) df =
     (case get_column df col of
        Inl e \<Rightarrow> Inl e
      | Inr c \<Rightarrow>
          (case gt_100 c of
             Inl e \<Rightarrow> Inl e
           | Inr sel \<Rightarrow> fix_percentages cols (set_column df col (assign_100 sel c))))"

subsection \<open>The density column\<close>

definition replace_comma :: "string \<Rightarrow> string" where
  "replace_comma s = map (\<lambda>c. if c = CHR '','' then CHR ''.'' else c) s"

fun str_replace :: "column \<Rightarrow> error + column" where
  \<comment> \<open>\<open>.str.replace(',', '.')\<close>: the \<open>.str\<close> accessor exists on object columns only\<close>
  "str_replace (ObjCol xs) = Inr (ObjCol (map (map_option replace_comma) xs))"
| "str_replace c = Inl AttributeError"

fun convert_all :: "('a \<Rightarrow> 'b option) \<Rightarrow> 'a list \<Rightarrow> error + 'b list" where
  \<comment> \<open>an element-wise conversion of an array: the first element that cannot be
      converted raises \<open>ValueError\<close>\<close>
  "convert_all f [] = Inr []"
| "convert_all f (x # xs) =
     (case f x of
        None \<Rightarrow> Inl ValueError
      | Some v \<Rightarrow> (case convert_all f xs of Inl e \<Rightarrow> Inl e | Inr vs \<Rightarrow> Inr (v # vs)))"

definition float_of_object :: "pylib \<Rightarrow> string option \<Rightarrow> float option" where
  \<comment> \<open>\<open>float\<close> of an element of an object column; NaN stays NaN\<close>
  "float_of_object lib x = (case x of None \<Rightarrow> Some None | Some s \<Rightarrow> py_float lib s)"

definition all_floats :: "pylib \<Rightarrow> string option list \<Rightarrow> error + float list" where
  "all_floats lib xs = convert_all (float_of_object lib) xs"

fun astype_float :: "pylib \<Rightarrow> column \<Rightarrow> error + column" where
  \<comment> \<open>\<open>.astype('float')\<close>\<close>
  "astype_float lib (IntCol xs) = Inr (FloatCol (map (\<lambda>x. Some (of_int x)) xs))"
| "astype_float lib (FloatCol xs) = Inr (FloatCol xs)"
| "astype_float lib (ObjCol xs) =
     (case all_floats lib xs of Inl e \<Rightarrow> Inl e | Inr vs \<Rightarrow> Inr (FloatCol vs))"

definition fix_density :: "pylib \<Rightarrow> column frame \<Rightarrow> error + column frame" where
  \<comment> \<open>The first statement stores the replaced strings in the frame. The second builds
      the converted column and does not store it: only its exception reaches the frame.\<close>
  "fix_density lib df =
     (case get_column df ''density_n'' of
        Inl e \<Rightarrow> Inl e
      | Inr c \<Rightarrow>
          (case str_replace c of
             Inl e \<Rightarrow> Inl e
           | Inr c' \<Rightarrow>
               (let data = set_column df ''density_n'' c' in
                case get_column data ''density_n'' of
                  Inl e \<Rightarrow> Inl e
                | Inr d \<Rightarrow> (case astype_float lib d of Inl e \<Rightarrow> Inl e | Inr converted \<Rightarrow> Inr data))))"


subsection \<open>Imputation\<close>

definition select_number :: "column frame \<Rightarrow> column frame" where
  \<comment> \<open>\<open>data.select_dtypes(include='number')\<close>\<close>
  "select_number df =
     df\<lparr>columns := filter (\<lambda>(n, c). dtype_of c \<in> {int64, float64}) (columns df)\<rparr>"

definition select_object :: "column frame \<Rightarrow> column frame" where
  \<comment> \<open>\<open>data.select_dtypes(include='object')\<close>\<close>
  "select_object df = df\<lparr>columns := filter (\<lambda>(n, c). dtype_of c = object) (columns df)\<rparr>"

fun as_floats :: "column \<Rightarrow> float list" where
  \<comment> \<open>the float array the imputer makes of a numeric column (the last equation is
      not reached: \<open>numerics\<close> holds no object column)\<close>
  "as_floats (IntCol xs) = map (\<lambda>x. Some (of_int x)) xs"
| "as_floats (FloatCol xs) = xs"
| "as_floats (ObjCol xs) = map (\<lambda>x. None) xs"

definition has_value :: "float list \<Rightarrow> bool" where
  "has_value f = list_ex (\<lambda>v. v \<noteq> None) f"

definition impute_feature :: "pylib \<Rightarrow> float list list \<Rightarrow> nat \<Rightarrow> float list \<Rightarrow> float list" where
  \<comment> \<open>only the missing entries of a feature are written\<close>
  "impute_feature lib X j f =
     map (\<lambda>(i, v). case v of None \<Rightarrow> Some (knn_mean lib X i j) | Some r \<Rightarrow> Some r)
       (enumerate 0 f)"

definition fit_transform :: "pylib \<Rightarrow> nat \<Rightarrow> float list list \<Rightarrow> error + float list list" where
  \<comment> \<open>\<open>KNNImputer(n_neighbors=15).fit_transform\<close> on \<open>n\<close> samples: the input check
      raises \<open>ValueError\<close> on an array with no sample or no feature; a feature with no
      value at all is left out of the result; in every other feature the missing
      entries are filled.\<close>
  "fit_transform lib n X =
     (if n = 0 \<or> X = [] then Inl ValueError
      else Inr (map (\<lambda>(j, f). impute_feature lib X j f)
                  (filter (\<lambda>(j, f). has_value f) (enumerate 0 X))))"

definition data_frame :: "nat \<Rightarrow> string list \<Rightarrow> float list list \<Rightarrow> error + column frame" where
  \<comment> \<open>\<open>pd.DataFrame(values, columns=..., index=...)\<close>: \<open>ValueError\<close> when the number
      of labels is not the number of columns of the array\<close>
  "data_frame n labels features =
     (if length features \<noteq> length labels then Inl ValueError
      else Inr \<lparr>nrows = n, columns = zip labels (map FloatCol features)\<rparr>)"

definition knn_impute :: "pylib \<Rightarrow> column frame \<Rightarrow> error + column frame" where
  \<comment> \<open>from \<open>numerics\<close> to \<open>numerics_df\<close>\<close>
  "knn_impute lib df =
     (let numerics = select_number df; numeric_cols = column_names numerics in
      case fit_transform lib (nrows numerics) (map (\<lambda>(n, c). as_floats c) (columns numerics)) of
        Inl e \<Rightarrow> Inl e
      | Inr numerics_imputed \<Rightarrow> data_frame (nrows numerics) numeric_cols numerics_imputed)"

definition concat_columns :: "'c frame \<Rightarrow> 'c frame \<Rightarrow> 'c frame" where
  \<comment> \<open>\<open>pd.concat([a, b], axis=1)\<close> of two frames on one index\<close>
  "concat_columns a b = \<lparr>nrows = nrows a, columns = columns a @ columns b\<rparr>"

definition present :: "float list \<Rightarrow> rat list" where
  "present xs = [v. Some v \<leftarrow> xs]"

definition nanmedian :: "pylib \<Rightarrow> float list \<Rightarrow> float" where
  \<comment> \<open>the median skips NaN; of no value at all it is NaN\<close>
  "nanmedian lib xs = (if present xs = [] then None else Some (np_median lib (present xs)))"

fun median :: "pylib \<Rightarrow> column \<Rightarrow> error + float" where
  \<comment> \<open>\<open>Series.median()\<close>. The elements of an object column are converted with
      \<open>float\<close> first, as the pandas releases before 2.0 do; a failed conversion is
      a \<open>TypeError\<close>.\<close>
  "median lib (IntCol xs) = Inr (nanmedian lib (map (\<lambda>x. Some (of_int x)) xs))"
| "median lib (FloatCol xs) = Inr (nanmedian lib xs)"
| "median lib (ObjCol xs) =
     (case all_floats lib xs of Inl e \<Rightarrow> Inl TypeError | Inr vs \<Rightarrow> Inr (nanmedian lib vs))"

fun fill_cell :: "float \<Rightarrow> string option \<Rightarrow> cell" where
  "fill_cell m (Some s) = Str s"
| "fill_cell (Some v) None = Num v"
| "fill_cell None None = NaN"

fun fill_float :: "float \<Rightarrow> float \<Rightarrow> float" where
  "fill_float m (Some r) = Some r"
| "fill_float m None = m"

fun fillna_column :: "float \<Rightarrow> column \<Rightarrow> cleaned_column" where
  "fillna_column m (IntCol xs) = IntValues xs"
| "fillna_column m (FloatCol xs) = FloatValues (map (fill_float m) xs)"
| "fillna_column m (ObjCol xs) = ObjValues (map (fill_cell m) xs)"

definition fillna :: "float \<Rightarrow> column frame \<Rightarrow> cleaned_column frame" where
  \<comment> \<open>\<open>data_imputed.fillna(value, inplace=True)\<close>: every missing entry of every column
      takes the value; filling with NaN changes nothing\<close>
  "fillna m df = \<lparr>nrows = nrows df, columns = map (\<lambda>(n, c). (n, fillna_column m c)) (columns df)\<rparr>"

definition impute_missing :: "pylib \<Rightarrow> column frame \<Rightarrow> error + cleaned_column frame" where
  "impute_missing lib df =
     (let categoricals = select_object df in
      case knn_impute lib df of
        Inl e \<Rightarrow> Inl e
      | Inr numerics_df \<Rightarrow>
          (let data_imputed = concat_columns categoricals numerics_df in
           case get_column df ''density_n'' of
             Inl e \<Rightarrow> Inl e
           | Inr d \<Rightarrow>
               (case median lib d of
                  Inl e \<Rightarrow> Inl e
                | Inr m \<Rightarrow> Inr (fillna m data_imputed))))"

subsection \<open>The year column\<close>

definition trunc :: "rat \<Rightarrow> int" where
  \<comment> \<open>a float to an integer: towards zero\<close>
  "trunc r = (if r < 0 then \<lceil>r\<rceil> else \<lfloor>r\<rfloor>)"

fun int_of_cell :: "pylib \<Rightarrow> cell \<Rightarrow> int option" where
  "int_of_cell lib NaN = None"
| "int_of_cell lib (Num r) = Some (trunc r)"
| "int_of_cell lib (Str s) = py_int lib s"

fun astype_int :: "pylib \<Rightarrow> cleaned_column \<Rightarrow> error + cleaned_column" where
  \<comment> \<open>\<open>.astype('int')\<close>: NaN has no integer value\<close>
  "astype_int lib (IntValues xs) = Inr (IntValues xs)"
| "astype_int lib (FloatValues xs) =
     (case convert_all (map_option trunc) xs of Inl e \<Rightarrow> Inl e | Inr vs \<Rightarrow> Inr (IntValues vs))"
| "astype_int lib (ObjValues xs) =
     (case convert_all (int_of_cell lib) xs of Inl e \<Rightarrow> Inl e | Inr vs \<Rightarrow> Inr (IntValues vs))"

definition fix_year :: "pylib \<Rightarrow> cleaned_column frame \<Rightarrow> error + cleaned_column frame" where
  "fix_year lib df =
     (case get_column df ''year'' of
        Inl e \<Rightarrow> Inl e
      | Inr c \<Rightarrow>
          (case astype_int lib c of
             Inl e \<Rightarrow> Inl e
           | Inr c' \<Rightarrow> Inr (set_column df ''year'' c')))"

subsection \<open>The whole stage\<close>

definition clean_frame :: "pylib \<Rightarrow> column frame \<Rightarrow> error + cleaned_column frame" where
  \<comment> \<open>\<open>clean_data\<close> between \<open>read_csv\<close> and \<open>to_csv\<close>\<close>
  "clean_frame lib raw =
     (case drop_columns dropped (normalised_columns raw) of
        Inl e \<Rightarrow> Inl e
      | Inr pruned \<Rightarrow>
          (case fix_percentages pct_cols pruned of
             Inl e \<Rightarrow> Inl e
           | Inr clamped \<Rightarrow>
               (case fix_density lib clamped of
                  Inl e \<Rightarrow> Inl e
                | Inr data \<Rightarrow>
                    (case impute_missing lib data of
                       Inl e \<Rightarrow> Inl e
                     | Inr data_imputed \<Rightarrow> fix_year lib data_imputed))))"

text \<open>
  The two artifacts: the file at \<open>data_path\<close>, as \<open>read_csv\<close> parses it, and the file
  \<open>to_csv\<close> writes. Writing is the last statement of \<open>clean_data\<close>, so an exception
  leaves the files as they were.
\<close>

record files =
  data_raw :: "column frame option"
  data_clean :: "cleaned_column frame option"

definition clean_data :: "pylib \<Rightarrow> files \<Rightarrow> error option \<times> files" where
  "clean_data lib fs =
     (case data_raw fs of
        None \<Rightarrow> (Some FileNotFoundError, fs)
      | Some raw \<Rightarrow>
          (case clean_frame lib raw of
             Inl e \<Rightarrow> (Some e, fs)
           | Inr data_imputed \<Rightarrow> (None, fs\<lparr>data_clean := Some data_imputed\<rparr>)))"


section \<open>A reference instance and a small record set\<close>

text \<open>
  An instance of the library parameters for running the model: \<open>float\<close> and \<open>int\<close> on
  plain unsigned decimal literals (a \<open>ValueError\<close> on every other string), the exact
  median, and for the imputer the mean of the values present in the feature, which is
  what its neighbour mean is when the feature has at most 15 values.
\<close>

definition digit_of :: "char \<Rightarrow> nat option" where
  "digit_of c = (if 48 \<le> code c \<and> code c \<le> 57 then Some (code c - 48) else None)"

fun digits_value :: "nat \<Rightarrow> string \<Rightarrow> nat option" where
  "digits_value acc [] = Some acc"
| "digits_value acc (c # cs) =
     (case digit_of c of None \<Rightarrow> None | Some d \<Rightarrow> digits_value (10 * acc + d) cs)"

definition decimal_float :: "string \<Rightarrow> float option" where
  "decimal_float s =
     (let whole = takeWhile (\<lambda>c. c \<noteq> CHR ''.'') s;
          frac = drop 1 (dropWhile (\<lambda>c. c \<noteq> CHR ''.'') s)
      in if whole = [] \<and> frac = [] then None
         else (case (digits_value 0 whole, digits_value 0 frac) of
                 (Some a, Some b) \<Rightarrow> Some (Some (of_nat a + of_nat b / 10 ^ length frac))
               | _ \<Rightarrow> None))"

definition decimal_int :: "string \<Rightarrow> int option" where
  "decimal_int s = (if s = [] then None else map_option int (digits_value 0 s))"

definition exact_median :: "rat list \<Rightarrow> rat" where
  "exact_median vs =
     (let ys = sort vs; k = length ys div 2
      in if odd (length ys) then ys ! k else (ys ! (k - 1) + ys ! k) / 2)"

definition feature_mean :: "float list list \<Rightarrow> nat \<Rightarrow> nat \<Rightarrow> rat" where
  "feature_mean X i j = sum_list (present (X ! j)) / of_nat (length (present (X ! j)))"

definition reference_lib :: pylib where
  "reference_lib =
     \<lparr>py_float = decimal_float, py_int = decimal_int, np_median = exact_median,
      knn_mean = feature_mean\<rparr>"

definition density_header :: string where
  \<comment> \<open>the header with a backslash and the letter n between the two words\<close>
  "density_header = ''Density'' @ [CHR 0x5C, CHR ''n''] @ ''(P/Km2)''"

definition raw_sample :: "column frame" where
  "raw_sample =
     \<lparr>nrows = 3, columns =
       [(''Entity'', ObjCol [Some ''Indonesia'', None, Some ''Malaysia'']),
        (''Year'', IntCol [2000, 2001, 2002]),
        (''Access to electricity (% of population)'', FloatCol [Some 150, Some 100, Some 45]),
        (''Access to clean fuels for cooking'', FloatCol [Some (-2), None, Some 8]),
        (''Financial flows to developing countries (US $)'', FloatCol [None, None, None]),
        (''Renewable energy share in the total final energy consumption (%)'',
           FloatCol [Some 45, Some 46, Some 47]),
        (''Low-carbon electricity (% electricity)'', IntCol [101, 20, 30]),
        (''Renewables (% equivalent primary energy)'', FloatCol [Some 3, None, Some 5]),
        (''gdp_growth'', FloatCol [Some 250, Some (-3), Some 5]),
        (density_header, ObjCol [Some ''12,5'', Some ''105'', Some ''8''])]\<rparr>"


section \<open>Notions used to state the properties\<close>

definition rectangular :: "column frame \<Rightarrow> bool" where
  \<comment> \<open>every column has one entry for each row of the index\<close>
  "rectangular df = list_all (\<lambda>(n, c). col_length c = nrows df) (columns df)"


definition required_columns :: "string list" where
  \<comment> \<open>the labels \<open>clean_data\<close> names: the two it drops, the four percentage
      columns, the density column and the year column\<close>
  "required_columns = dropped @ pct_cols @ [''density_n'', ''year'']"

definition kept_columns :: "column frame \<Rightarrow> (string \<times> column) list" where
  \<comment> \<open>the raw columns under their normalised labels, without the two dropped ones\<close>
  "kept_columns raw =
     filter (\<lambda>(n, c). n \<notin> set dropped) (columns (normalised_columns raw))"

definition cleaned_sample :: "cleaned_column frame" where
  "cleaned_sample =
     \<lparr>nrows = 3, columns =
       [(''entity'', ObjValues [Str ''Indonesia'', Num (25 / 2), Str ''Malaysia'']),
        (''density_n'', ObjValues [Str ''12.5'', Str ''105'', Str ''8'']),
        (''year'', IntValues [2000, 2001, 2002]),
        (''access_to_electricity'', FloatValues [Some 100, Some 100, Some 45]),
        (''access_to_clean_fuels_for_cooking'', FloatValues [Some (-2), Some 3, Some 8]),
        (''renewable_energy_share_in_the_total_final_energy_consumption'',
           FloatValues [Some 45, Some 46, Some 47]),
        (''low_carbon_electricity'', FloatValues [Some 100, Some 20, Some 30]),
        (''gdp_growth'', FloatValues [Some 250, Some (-3), Some 5])]\<rparr>"

fun clamped :: "column \<Rightarrow> column" where
  \<comment> \<open>a numeric column with its entries above 100 set to 100\<close>
  "clamped (IntCol xs) = IntCol (map (\<lambda>x. if x > 100 then 100 else x) xs)"
| "clamped (FloatCol xs) =
     FloatCol (map (\<lambda>v. case v of None \<Rightarrow> None | Some r \<Rightarrow> if r > 100 then Some 100 else Some r) xs)"
| "clamped (ObjCol xs) = ObjCol xs"

definition schema :: "column frame \<Rightarrow> (string \<times> dtype) list" where
  "schema df = map (\<lambda>(n, c). (n, dtype_of c)) (columns df)"

text \<open>The sample after each step, and two record sets on which the stage fails.\<close>

definition pruned_sample :: "column frame" where
  "pruned_sample =
     \<lparr>nrows = 3, columns =
       [(''entity'', ObjCol [Some ''Indonesia'', None, Some ''Malaysia'']),
        (''year'', IntCol [2000, 2001, 2002]),
        (''access_to_electricity'', FloatCol [Some 150, Some 100, Some 45]),
        (''access_to_clean_fuels_for_cooking'', FloatCol [Some (-2), None, Some 8]),
        (''renewable_energy_share_in_the_total_final_energy_consumption'',
           FloatCol [Some 45, Some 46, Some 47]),
        (''low_carbon_electricity'', IntCol [101, 20, 30]),
        (''gdp_growth'', FloatCol [Some 250, Some (-3), Some 5]),
        (''density_n'', ObjCol [Some ''12,5'', Some ''105'', Some ''8''])]\<rparr>"

definition clamped_sample :: "column frame" where
  "clamped_sample =
     set_column
       (set_column pruned_sample ''access_to_electricity'' (FloatCol [Some 100, Some 100, Some 45]))
       ''low_carbon_electricity'' (IntCol [100, 20, 30])"

definition data_sample :: "column frame" where
  "data_sample =
     set_column clamped_sample ''density_n'' (ObjCol [Some ''12.5'', Some ''105'', Some ''8''])"

definition numerics_sample :: "column frame" where
  "numerics_sample =
     \<lparr>nrows = 3, columns =
       [(''year'', FloatCol [Some 2000, Some 2001, Some 2002]),
        (''access_to_electricity'', FloatCol [Some 100, Some 100, Some 45]),
        (''access_to_clean_fuels_for_cooking'', FloatCol [Some (-2), Some 3, Some 8]),
        (''renewable_energy_share_in_the_total_final_energy_consumption'',
           FloatCol [Some 45, Some 46, Some 47]),
        (''low_carbon_electricity'', FloatCol [Some 100, Some 20, Some 30]),
        (''gdp_growth'', FloatCol [Some 250, Some (-3), Some 5])]\<rparr>"

definition imputed_sample :: "cleaned_column frame" where
  "imputed_sample =
     set_column cleaned_sample ''year'' (FloatValues [Some 2000, Some 2001, Some 2002])"

definition sample_without_year :: "column frame" where
  "sample_without_year =
     raw_sample\<lparr>columns := filter (\<lambda>(n, c). n \<noteq> ''Year'') (columns raw_sample)\<rparr>"

definition header_only_sample :: "column frame" where
  \<comment> \<open>the sample's header with no row under it: every column is an empty object column\<close>
  "header_only_sample =
     \<lparr>nrows = 0, columns = map (\<lambda>(n, c). (n, ObjCol [])) (columns raw_sample)\<rparr>"

section \<open>Properties of the normalisation\<close>

lemma word_not_sep: "word_char c \<Longrightarrow> \<not> sep_char c"
  by (auto simp: word_char_def sep_char_def code_def)

lemma word_lower: "word_char c \<Longrightarrow> lower_char c = c"
  by (auto simp: word_char_def lower_char_def code_def)

lemma word_not_paren: "word_char c \<Longrightarrow> c \<noteq> CHR ''(''"
  by (auto simp: word_char_def code_def)

lemma lower_id: "\<forall>c\<in>set s. word_char c \<Longrightarrow> lower s = s"
  by (simp add: lower_def word_lower map_idI)

lemma remove_parens_id: "\<forall>c\<in>set s. word_char c \<Longrightarrow> remove_parens s = s"
  by (induction s) (auto dest: word_not_paren)

lemma blank_id: "\<forall>c\<in>set s. word_char c \<Longrightarrow> blank_others s = s"
  by (simp add: blank_others_def map_idI)

lemma collapse_id: "\<forall>c\<in>set s. word_char c \<Longrightarrow> collapse s = s"
  by (induction s) (auto dest: word_not_sep)

lemma dropWhile_hd_id: "s = [] \<or> \<not> P (hd s) \<Longrightarrow> dropWhile P s = s"
  by (cases s) auto

lemma strip_fix:
  assumes "s = [] \<or> (hd s \<noteq> CHR ''_'' \<and> last s \<noteq> CHR ''_'')"
  shows "strip s = s"
proof (cases "s = []")
  case True
  then show ?thesis by (simp add: strip_def)
next
  case False
  with assms have h: "hd s \<noteq> CHR ''_''" and l: "last s \<noteq> CHR ''_''" by auto
  have 1: "dropWhile (\<lambda>c. c = CHR ''_'') s = s"
    using h by (intro dropWhile_hd_id) simp
  have "hd (rev s) = last s" using False by (simp add: hd_rev)
  with l have 2: "dropWhile (\<lambda>c. c = CHR ''_'') (rev s) = rev s"
    by (intro dropWhile_hd_id) simp
  show ?thesis unfolding strip_def by (simp only: 1 2 rev_rev_ident)
qed

lemma strip_shape:
  "strip s = [] \<or> (hd (strip s) \<noteq> CHR ''_'' \<and> last (strip s) \<noteq> CHR ''_'')"
proof -
  define P where "P = (\<lambda>c. c = CHR ''_'')"
  define a where "a = dropWhile P s"
  define b where "b = dropWhile P (rev a)"
  have st: "strip s = rev b" by (simp add: strip_def P_def a_def b_def)
  show ?thesis
  proof (cases "b = []")
    case True
    with st show ?thesis by simp
  next
    case False
    have "rev a = takeWhile P (rev a) @ b" by (simp add: b_def)
    then have "last (rev a) = last b" using False by (metis last_appendR)
    moreover have ane: "a \<noteq> []" using False by (auto simp: b_def)
    ultimately have "last b = hd a" by (simp add: last_rev)
    moreover have "\<not> P (hd a)" using ane hd_dropWhile [of P s] by (simp add: a_def)
    ultimately have 1: "\<not> P (hd (rev b))" using False by (simp add: hd_rev)
    have "\<not> P (hd b)" using False hd_dropWhile [of P "rev a"] by (simp add: b_def)
    then have 2: "\<not> P (last (rev b))" using False by (simp add: last_rev)
    from 1 2 st show ?thesis by (simp add: P_def)
  qed
qed

lemma strip_strip: "strip (strip s) = strip s"
  by (rule strip_fix [OF strip_shape])

lemma set_strip: "c \<in> set (strip s) \<Longrightarrow> c \<in> set s"
proof -
  assume "c \<in> set (strip s)"
  then have "c \<in> set (dropWhile (\<lambda>c. c = CHR ''_'') (rev (dropWhile (\<lambda>c. c = CHR ''_'') s)))"
    by (simp add: strip_def)
  then have "c \<in> set (rev (dropWhile (\<lambda>c. c = CHR ''_'') s))" by (rule set_dropWhileD)
  then have "c \<in> set (dropWhile (\<lambda>c. c = CHR ''_'') s)" by simp
  then show ?thesis by (rule set_dropWhileD)
qed

lemma set_collapse:
  "\<forall>c\<in>set s. word_char c \<or> sep_char c \<Longrightarrow> \<forall>c\<in>set (collapse s). word_char c"
proof (induction s rule: collapse.induct)
  case 1
  then show ?case by simp
next
  case (2 c cs)
  have us: "word_char CHR ''_''" by (simp add: word_char_def)
  show ?case
  proof (cases "sep_char c")
    case True
    have "\<forall>c\<in>set (dropWhile sep_char cs). word_char c \<or> sep_char c"
      using 2(3) by (auto dest: set_dropWhileD)
    with 2(1) [OF True] have "\<forall>c\<in>set (collapse (dropWhile sep_char cs)). word_char c" by blast
    with True us show ?thesis by simp
  next
    case False
    with 2 show ?thesis by auto
  qed
qed

lemma set_blank: "\<forall>c\<in>set (blank_others s). word_char c \<or> sep_char c"
  by (auto simp: blank_others_def sep_char_def code_def)

lemma normalise_word: "\<forall>c\<in>set (normalise_column s). word_char c"
  unfolding normalise_column_def using set_collapse [OF set_blank] set_strip by blast

text \<open>
  C6. The normalisation of column names is idempotent: a name that is already normalised,
  that is, a name the normalisation returns, is returned unchanged.
\<close>

theorem normalise_column_idempotent:
  "normalise_column (normalise_column s) = normalise_column s"
proof -
  let ?x = "normalise_column s"
  have w: "\<forall>c\<in>set ?x. word_char c" by (rule normalise_word)
  have "normalise_column ?x = strip ?x"
    unfolding normalise_column_def [of ?x]
    by (simp only: lower_id [OF w] remove_parens_id [OF w] blank_id [OF w] collapse_id [OF w])
  also have "\<dots> = ?x" by (simp add: normalise_column_def strip_strip)
  finally show ?thesis .
qed

text \<open>
  C3, as stated, at the header of the density column as the data has it (a backslash and
  the letter n between \<open>Density\<close> and the parenthesis): the normalisation does not
  return \<open>density\<close>.
\<close>

theorem normalise_density_header_counterexample:
  "normalise_column (''Density'' @ [CHR 0x5C, CHR ''n''] @ ''(P/Km2)'') \<noteq> ''density''"
  by code_simp

text \<open>
  C3, amended. The normalisation maps \<open>Access to electricity (% of population)\<close> to
  \<open>access_to_electricity\<close> and \<open>GDP growth\<close> to \<open>gdp_growth\<close>. It maps the density
  header with a backslash and the letter n to \<open>density_n\<close>, the label under which
  \<open>clean_data\<close> reads the column; with a line feed in place of these two characters the
  result is \<open>density\<close>.
\<close>

theorem normalise_column_examples:
  "normalise_column ''Access to electricity (% of population)'' = ''access_to_electricity'' \<and>
   normalise_column ''GDP growth'' = ''gdp_growth'' \<and>
   normalise_column (''Density'' @ [CHR 0x5C, CHR ''n''] @ ''(P/Km2)'') = ''density_n'' \<and>
   normalise_column (''Density'' @ [CHR 0x0A] @ ''(P/Km2)'') = ''density''"
  by code_simp

section \<open>Properties of the steps\<close>


lemma names_set_column: "column_names (set_column df col c) = column_names df"
  by (simp add: column_names_def set_column_def case_prod_unfold o_def)

lemma nrows_set_column: "nrows (set_column df col c) = nrows df"
  by (simp add: set_column_def)

lemma get_column_Inr: "get_column df col = Inr c \<longleftrightarrow> map_of (columns df) col = Some c"
  by (simp add: get_column_def split: option.splits)

lemma get_column_names: "get_column df col = Inr c \<Longrightarrow> col \<in> set (column_names df)"
  by (auto simp: get_column_Inr column_names_def dest: map_of_SomeD intro: rev_image_eqI)

lemma get_column_mem: "get_column df col = Inr c \<Longrightarrow> (col, c) \<in> set (columns df)"
  by (auto simp: get_column_Inr dest: map_of_SomeD)

lemma map_of_replace:
  "map_of (map (\<lambda>(n, old). if n = col then (n, c) else (n, old)) xs) k =
     (if k = col then (if col \<in> fst ` set xs then Some c else None) else map_of xs k)"
  by (induction xs) (force simp: image_iff)+

lemma map_of_set_column:
  "map_of (columns (set_column df col c)) k =
     (if k = col then (if col \<in> set (column_names df) then Some c else None)
      else map_of (columns df) k)"
  by (simp add: set_column_def map_of_replace column_names_def)


lemma map2_map_same: "map2 f (map g xs) xs = map (\<lambda>x. f (g x) x) xs"
  by (induction xs) auto

lemma assign_100_clamped: "gt_100 c = Inr sel \<Longrightarrow> assign_100 sel c = clamped c"
  by (cases c) (auto simp: map2_map_same split: if_splits option.splits intro!: map_cong)

lemma dtype_clamped: "dtype_of (clamped c) = dtype_of c"
  by (cases c) auto

lemma length_clamped: "col_length (clamped c) = col_length c"
  by (cases c) auto

lemma fix_percentages_names:
  "fix_percentages cols df = Inr df' \<Longrightarrow> column_names df' = column_names df \<and> nrows df' = nrows df"
  by (induction cols arbitrary: df)
     (auto simp: names_set_column nrows_set_column split: sum.splits)

lemma fix_percentages_present:
  "fix_percentages cols df = Inr df' \<Longrightarrow> set cols \<subseteq> set (column_names df)"
proof (induction cols arbitrary: df)
  case Nil
  then show ?case by simp
next
  case (Cons col cols)
  from Cons.prems obtain c sel where
    g: "get_column df col = Inr c" and
    r: "fix_percentages cols (set_column df col (assign_100 sel c)) = Inr df'"
    by (auto split: sum.splits)
  from Cons.IH [OF r] have "set cols \<subseteq> set (column_names df)"
    by (simp add: names_set_column)
  with get_column_names [OF g] show ?case by simp
qed

lemma fix_percentages_lookup:
  "fix_percentages cols df = Inr df' \<Longrightarrow> distinct cols \<Longrightarrow>
   map_of (columns df') k =
     (if k \<in> set cols then map_option clamped (map_of (columns df) k) else map_of (columns df) k)"
proof (induction cols arbitrary: df)
  case Nil
  then show ?case by simp
next
  case (Cons col cols)
  from Cons.prems(1) obtain c sel where
    g: "get_column df col = Inr c" and m: "gt_100 c = Inr sel" and
    r: "fix_percentages cols (set_column df col (assign_100 sel c)) = Inr df'"
    by (auto split: sum.splits)
  from Cons.prems(2) have d: "distinct cols" and n: "col \<notin> set cols" by simp_all
  have a: "assign_100 sel c = clamped c" by (rule assign_100_clamped [OF m])
  have c: "map_of (columns df) col = Some c" using g by (simp add: get_column_Inr)
  have i: "col \<in> set (column_names df)" by (rule get_column_names [OF g])
  show ?case
    unfolding Cons.IH [OF r d] using n a c i
    by (auto simp: map_of_set_column)
qed

lemma names_schema: "column_names df = map fst (schema df)"
  by (simp add: column_names_def schema_def case_prod_unfold o_def)

lemma schema_set_column:
  assumes "distinct (column_names df)" and "get_column df col = Inr c"
    and "dtype_of c' = dtype_of c"
  shows "schema (set_column df col c') = schema df"
proof -
  have "\<And>n old. (n, old) \<in> set (columns df) \<Longrightarrow> n = col \<Longrightarrow> old = c"
    using assms(1,2) by (simp add: get_column_Inr column_names_def)
  then show ?thesis
    using assms(3) by (auto simp: schema_def set_column_def)
qed

lemma rectangular_set_column:
  "rectangular df \<Longrightarrow> col_length c' = nrows df \<Longrightarrow> rectangular (set_column df col c')"
  by (auto simp: rectangular_def set_column_def list_all_iff split: if_splits)

lemma rectangular_get: "rectangular df \<Longrightarrow> get_column df col = Inr c \<Longrightarrow> col_length c = nrows df"
  by (auto simp: rectangular_def list_all_iff dest!: get_column_mem)

lemma fix_percentages_schema:
  "fix_percentages cols df = Inr df' \<Longrightarrow> distinct (column_names df) \<Longrightarrow> schema df' = schema df"
proof (induction cols arbitrary: df)
  case Nil
  then show ?case by simp
next
  case (Cons col cols)
  from Cons.prems(1) obtain c sel where
    g: "get_column df col = Inr c" and m: "gt_100 c = Inr sel" and
    r: "fix_percentages cols (set_column df col (assign_100 sel c)) = Inr df'"
    by (auto split: sum.splits)
  have a: "dtype_of (assign_100 sel c) = dtype_of c"
    by (simp add: assign_100_clamped [OF m] dtype_clamped)
  have "schema df' = schema (set_column df col (assign_100 sel c))"
    using Cons.prems(2) by (intro Cons.IH [OF r]) (simp add: names_set_column)
  then show ?case by (simp add: schema_set_column [OF Cons.prems(2) g a])
qed

lemma fix_percentages_rectangular:
  "fix_percentages cols df = Inr df' \<Longrightarrow> rectangular df \<Longrightarrow> rectangular df'"
proof (induction cols arbitrary: df)
  case Nil
  then show ?case by simp
next
  case (Cons col cols)
  from Cons.prems(1) obtain c sel where
    g: "get_column df col = Inr c" and m: "gt_100 c = Inr sel" and
    r: "fix_percentages cols (set_column df col (assign_100 sel c)) = Inr df'"
    by (auto split: sum.splits)
  have "col_length (assign_100 sel c) = nrows df"
    using rectangular_get [OF Cons.prems(2) g]
    by (simp add: assign_100_clamped [OF m] length_clamped)
  then show ?case
    by (intro Cons.IH [OF r] rectangular_set_column Cons.prems(2))
qed


lemma str_replace_ObjCol:
  "str_replace c = Inr c' \<Longrightarrow> \<exists>xs. c = ObjCol xs \<and> c' = ObjCol (map (map_option replace_comma) xs)"
  by (cases c) auto

lemma fix_density_result:
  assumes "fix_density lib df = Inr df'"
  obtains xs where "get_column df ''density_n'' = Inr (ObjCol xs)"
    and "df' = set_column df ''density_n'' (ObjCol (map (map_option replace_comma) xs))"
proof -
  from assms obtain c c' where g: "get_column df ''density_n'' = Inr c"
    and s: "str_replace c = Inr c'" and d: "df' = set_column df ''density_n'' c'"
    by (auto simp: fix_density_def Let_def split: sum.splits)
  from str_replace_ObjCol [OF s] g d that show ?thesis by blast
qed

lemma fix_density_names:
  "fix_density lib df = Inr df' \<Longrightarrow>
   column_names df' = column_names df \<and> nrows df' = nrows df \<and> ''density_n'' \<in> set (column_names df)"
  by (erule fix_density_result) (simp add: names_set_column nrows_set_column get_column_names)

lemma fix_density_schema:
  "fix_density lib df = Inr df' \<Longrightarrow> distinct (column_names df) \<Longrightarrow> schema df' = schema df"
  by (erule fix_density_result) (simp add: schema_set_column)

lemma fix_density_rectangular:
  "fix_density lib df = Inr df' \<Longrightarrow> rectangular df \<Longrightarrow> rectangular df'"
  by (erule fix_density_result)
     (auto intro!: rectangular_set_column dest: rectangular_get)

lemma fix_density_object:
  "fix_density lib df = Inr df' \<Longrightarrow>
   \<exists>xs. get_column df' ''density_n'' = Inr (ObjCol xs)"
proof (erule fix_density_result)
  fix xs
  assume g: "get_column df ''density_n'' = Inr (ObjCol xs)"
    and d: "df' = set_column df ''density_n'' (ObjCol (map (map_option replace_comma) xs))"
  from get_column_names [OF g] d
  show "\<exists>xs. get_column df' ''density_n'' = Inr (ObjCol xs)"
    by (simp add: get_column_Inr map_of_set_column)
qed



lemma filter_all_kept: "length (filter P xs) = length xs \<Longrightarrow> filter P xs = xs"
proof (induction xs)
  case Nil
  then show ?case by simp
next
  case (Cons x xs)
  have le: "length (filter P xs) \<le> length xs" by (rule length_filter_le)
  show ?case
  proof (cases "P x")
    case True
    with Cons show ?thesis by simp
  next
    case False
    with Cons.prems le show ?thesis by simp
  qed
qed

lemma length_impute_feature: "length (impute_feature lib X j f) = length f"
  by (simp add: impute_feature_def)



lemma length_as_floats: "length (as_floats c) = col_length c"
  by (cases c) auto

lemma knn_impute_columns:
  assumes "knn_impute lib df = Inr ndf"
  defines "ncs \<equiv> columns (select_number df)"
  defines "X \<equiv> map (\<lambda>(n, c). as_floats c) ncs"
  shows "nrows df \<noteq> 0" and "nrows ndf = nrows df"
    and "columns ndf =
         map (\<lambda>(j, (n, c)). (n, FloatCol (impute_feature lib X j (as_floats c)))) (enumerate 0 ncs)"
proof -
  define feats where
    "feats = map (\<lambda>(j, f). impute_feature lib X j f) (filter (\<lambda>(j, f). has_value f) (enumerate 0 X))"
  have n: "nrows (select_number df) = nrows df" by (simp add: select_number_def)
  from assms(1) have ft: "fit_transform lib (nrows df) X = Inr feats"
    and dfr: "data_frame (nrows df) (column_names (select_number df)) feats = Inr ndf"
    by (auto simp: knn_impute_def Let_def n X_def ncs_def feats_def fit_transform_def
        split: sum.splits if_splits)
  from ft show "nrows df \<noteq> 0" by (auto simp: fit_transform_def split: if_splits)
  from dfr have len: "length feats = length ncs"
    and nd: "ndf = \<lparr>nrows = nrows df, columns = zip (map fst ncs) (map FloatCol feats)\<rparr>"
    by (auto simp: data_frame_def column_names_def ncs_def split: if_splits)
  from nd show "nrows ndf = nrows df" by simp
  have "length (filter (\<lambda>(j, f). has_value f) (enumerate 0 X)) = length (enumerate 0 X)"
    using len by (simp add: feats_def X_def)
  then have "filter (\<lambda>(j, f). has_value f) (enumerate 0 X) = enumerate 0 X"
    by (rule filter_all_kept)
  then have feats: "feats = map (\<lambda>(j, f). impute_feature lib X j f) (enumerate 0 X)"
    by (simp add: feats_def)
  have "zip (map fst ncs) (map FloatCol feats) =
        map (\<lambda>(j, (n, c)). (n, FloatCol (impute_feature lib X j (as_floats c)))) (enumerate 0 ncs)"
  proof (rule nth_equalityI)
    show "length (zip (map fst ncs) (map FloatCol feats)) =
          length (map (\<lambda>(j, (n, c)). (n, FloatCol (impute_feature lib X j (as_floats c)))) (enumerate 0 ncs))"
      using len by simp
  next
    fix i
    assume "i < length (zip (map fst ncs) (map FloatCol feats))"
    then have i: "i < length ncs" by simp
    then have "X ! i = as_floats (snd (ncs ! i))"
      by (simp add: X_def case_prod_unfold)
    with i show "zip (map fst ncs) (map FloatCol feats) ! i =
        map (\<lambda>(j, (n, c)). (n, FloatCol (impute_feature lib X j (as_floats c)))) (enumerate 0 ncs) ! i"
      using len by (simp add: feats nth_enumerate_eq X_def case_prod_unfold)
  qed
  with nd show "columns ndf =
         map (\<lambda>(j, (n, c)). (n, FloatCol (impute_feature lib X j (as_floats c)))) (enumerate 0 ncs)"
    by simp
qed

lemma knn_impute_names:
  "knn_impute lib df = Inr ndf \<Longrightarrow> column_names ndf = column_names (select_number df)"
  by (simp add: knn_impute_columns(3) column_names_def case_prod_unfold o_def map_snd_enumerate
      flip: map_map [of fst snd, unfolded o_def])




lemma knn_rectangular:
  assumes k: "knn_impute lib df = Inr ndf" and r: "rectangular df"
  shows "rectangular ndf"
proof -
  define ncs where "ncs = columns (select_number df)"
  have len: "col_length c = nrows df" if "i < length ncs" and "ncs ! i = (n, c)" for i n c
  proof -
    from that have "(n, c) \<in> set (columns df)"
      using nth_mem [of i ncs] by (auto simp: ncs_def select_number_def)
    with r show ?thesis by (auto simp: rectangular_def list_all_iff)
  qed
  show ?thesis
    unfolding rectangular_def knn_impute_columns(2,3) [OF k, folded ncs_def]
    by (auto simp: list_all_iff in_set_enumerate_eq length_impute_feature length_as_floats
        intro: len)
qed

lemma map_of_filter_first:
  "map_of xs k = Some v \<Longrightarrow> P (k, v) \<Longrightarrow> map_of (filter P xs) k = Some v"
  by (induction xs) (auto split: if_splits)

lemma map_of_map_value:
  "map_of (map (\<lambda>(n, c). (n, f c)) xs) k = map_option f (map_of xs k)"
  by (induction xs) auto

lemma impute_missing_result:
  assumes "impute_missing lib df = Inr out"
  obtains numerics_df d m where "knn_impute lib df = Inr numerics_df"
    and "get_column df ''density_n'' = Inr d" and "median lib d = Inr m"
    and "out = fillna m (concat_columns (select_object df) numerics_df)"
  using assms by (auto simp: impute_missing_def Let_def split: sum.splits)

lemma impute_missing_names:
  assumes "impute_missing lib df = Inr out"
  shows "column_names out = column_names (select_object df) @ column_names (select_number df)"
    and "nrows out = nrows df" and "nrows df \<noteq> 0"
proof -
  from assms obtain numerics_df m where k: "knn_impute lib df = Inr numerics_df"
    and o: "out = fillna m (concat_columns (select_object df) numerics_df)"
    by (rule impute_missing_result)
  show "column_names out = column_names (select_object df) @ column_names (select_number df)"
    using knn_impute_names [OF k]
    by (simp add: o fillna_def concat_columns_def column_names_def case_prod_unfold o_def)
  show "nrows out = nrows df"
    by (simp add: o fillna_def concat_columns_def select_object_def)
  show "nrows df \<noteq> 0" by (rule knn_impute_columns(1) [OF k])
qed

lemma length_fillna_column: "cleaned_length (fillna_column m c) = col_length c"
  by (cases c) auto

lemma impute_missing_lengths:
  assumes "impute_missing lib df = Inr out" and r: "rectangular df"
  shows "list_all (\<lambda>(n, c). cleaned_length c = nrows df) (columns out)"
proof -
  from assms(1) obtain numerics_df m where k: "knn_impute lib df = Inr numerics_df"
    and o: "out = fillna m (concat_columns (select_object df) numerics_df)"
    by (rule impute_missing_result)
  have "rectangular numerics_df" by (rule knn_rectangular [OF k r])
  moreover have "nrows numerics_df = nrows df" by (rule knn_impute_columns(2) [OF k])
  ultimately show ?thesis
    using r
    by (auto simp: o fillna_def concat_columns_def select_object_def rectangular_def list_all_iff
        length_fillna_column)
qed

lemma impute_missing_object:
  assumes i: "impute_missing lib df = Inr out"
    and g: "get_column df col = Inr (ObjCol xs)"
  shows "\<exists>d m. get_column df ''density_n'' = Inr d \<and> median lib d = Inr m \<and>
           get_column out col = Inr (ObjValues (map (fill_cell m) xs))"
proof -
  from i obtain numerics_df d m where k: "knn_impute lib df = Inr numerics_df"
    and gd: "get_column df ''density_n'' = Inr d" and md: "median lib d = Inr m"
    and o: "out = fillna m (concat_columns (select_object df) numerics_df)"
    by (rule impute_missing_result)
  have "map_of (columns (select_object df)) col = Some (ObjCol xs)"
    using g by (simp add: get_column_Inr select_object_def map_of_filter_first)
  then have "map_of (columns (concat_columns (select_object df) numerics_df)) col = Some (ObjCol xs)"
    by (simp add: concat_columns_def map_add_Some_iff)
  then have "get_column out col = Inr (ObjValues (map (fill_cell m) xs))"
    by (simp add: o fillna_def get_column_Inr map_of_map_value)
  with gd md show ?thesis by blast
qed


lemma length_convert_all: "convert_all f xs = Inr vs \<Longrightarrow> length vs = length xs"
  by (induction xs arbitrary: vs) (auto split: option.splits sum.splits)

lemma length_astype_int: "astype_int lib c = Inr c' \<Longrightarrow> cleaned_length c' = cleaned_length c"
  by (cases c) (auto split: sum.splits dest: length_convert_all)

lemma fix_year_result:
  assumes "fix_year lib df = Inr out"
  obtains c c' where "get_column df ''year'' = Inr c" and "astype_int lib c = Inr c'"
    and "out = set_column df ''year'' c'"
  using assms by (auto simp: fix_year_def split: sum.splits)

lemma fix_year_names:
  "fix_year lib df = Inr out \<Longrightarrow>
   column_names out = column_names df \<and> nrows out = nrows df \<and> ''year'' \<in> set (column_names df)"
  by (erule fix_year_result) (simp add: names_set_column nrows_set_column get_column_names)

lemma fix_year_lengths:
  assumes "fix_year lib df = Inr out"
    and "list_all (\<lambda>(n, c). cleaned_length c = k) (columns df)"
  shows "list_all (\<lambda>(n, c). cleaned_length c = k) (columns out)"
proof -
  from assms(1) obtain c c' where g: "get_column df ''year'' = Inr c"
    and a: "astype_int lib c = Inr c'" and o: "out = set_column df ''year'' c'"
    by (rule fix_year_result)
  have "cleaned_length c = k"
    using assms(2) get_column_mem [OF g] by (auto simp: list_all_iff)
  then have "cleaned_length c' = k" using length_astype_int [OF a] by simp
  then show ?thesis
    using assms(2) by (auto simp: o set_column_def list_all_iff split: if_splits)
qed

lemma fix_year_others:
  "fix_year lib df = Inr out \<Longrightarrow> col \<noteq> ''year'' \<Longrightarrow> get_column out col = get_column df col"
  by (erule fix_year_result) (simp add: get_column_def map_of_set_column)

section \<open>Properties of the whole stage\<close>

lemma drop_columns_result:
  assumes "drop_columns labels df = Inr df'"
  shows "set labels \<subseteq> set (column_names df)"
    and "columns df' = filter (\<lambda>(n, c). n \<notin> set labels) (columns df)"
    and "nrows df' = nrows df"
proof -
  from assms have e: "filter (\<lambda>l. l \<notin> set (column_names df)) labels = []"
    and d: "df' = df\<lparr>columns := filter (\<lambda>(n, c). n \<notin> set labels) (columns df)\<rparr>"
    by (auto simp: drop_columns_def split: list.splits)
  from e show "set labels \<subseteq> set (column_names df)" by (auto simp: filter_empty_conv)
  from d show "columns df' = filter (\<lambda>(n, c). n \<notin> set labels) (columns df)" by simp
  from d show "nrows df' = nrows df" by simp
qed

lemma clean_frame_result:
  assumes "clean_frame lib raw = Inr out"
  obtains pruned clamped_df data imputed where
    "drop_columns dropped (normalised_columns raw) = Inr pruned"
    and "fix_percentages pct_cols pruned = Inr clamped_df"
    and "fix_density lib clamped_df = Inr data"
    and "impute_missing lib data = Inr imputed"
    and "fix_year lib imputed = Inr out"
  using assms by (auto simp: clean_frame_def split: sum.splits)

lemma names_select_subset:
  "set (column_names (select_object df)) \<union> set (column_names (select_number df))
     \<subseteq> set (column_names df)"
  by (auto simp: column_names_def select_object_def select_number_def)

lemma names_pruned_subset:
  "columns df' = filter P (columns df) \<Longrightarrow> set (column_names df') \<subseteq> set (column_names df)"
  by (auto simp: column_names_def)

lemma clean_frame_requires:
  assumes "clean_frame lib raw = Inr out"
  shows "set required_columns \<subseteq> set (column_names (normalised_columns raw))"
proof -
  from assms obtain pruned clamped_df data imputed where
    dr: "drop_columns dropped (normalised_columns raw) = Inr pruned"
    and pc: "fix_percentages pct_cols pruned = Inr clamped_df"
    and de: "fix_density lib clamped_df = Inr data"
    and im: "impute_missing lib data = Inr imputed"
    and yr: "fix_year lib imputed = Inr out"
    by (rule clean_frame_result)
  let ?N = "set (column_names (normalised_columns raw))"
  have 1: "set dropped \<subseteq> ?N" by (rule drop_columns_result(1) [OF dr])
  have p: "set (column_names pruned) \<subseteq> ?N"
    by (rule names_pruned_subset [OF drop_columns_result(2) [OF dr]])
  have 2: "set pct_cols \<subseteq> ?N"
    using fix_percentages_present [OF pc] p by blast
  have c: "column_names clamped_df = column_names pruned"
    using fix_percentages_names [OF pc] by simp
  have d: "column_names data = column_names pruned"
    using fix_density_names [OF de] c by simp
  have 3: "''density_n'' \<in> ?N"
    using fix_density_names [OF de] c p by auto
  have "''year'' \<in> set (column_names imputed)"
    using fix_year_names [OF yr] by simp
  then have "''year'' \<in> set (column_names data)"
    using impute_missing_names(1) [OF im] names_select_subset [of data] by auto
  with d p have 4: "''year'' \<in> ?N" by auto
  from 1 2 3 4 show ?thesis by (simp add: required_columns_def)
qed

lemma clean_frame_nonempty:
  assumes "clean_frame lib raw = Inr out"
  shows "nrows raw \<noteq> 0" and "nrows out = nrows raw"
proof -
  from assms obtain pruned clamped_df data imputed where
    dr: "drop_columns dropped (normalised_columns raw) = Inr pruned"
    and pc: "fix_percentages pct_cols pruned = Inr clamped_df"
    and de: "fix_density lib clamped_df = Inr data"
    and im: "impute_missing lib data = Inr imputed"
    and yr: "fix_year lib imputed = Inr out"
    by (rule clean_frame_result)
  have "nrows pruned = nrows raw"
    using drop_columns_result(3) [OF dr] by (simp add: normalised_columns_def)
  then have n: "nrows data = nrows raw"
    using fix_percentages_names [OF pc] fix_density_names [OF de] by simp
  with impute_missing_names(3) [OF im] show "nrows raw \<noteq> 0" by simp
  from n impute_missing_names(2) [OF im] fix_year_names [OF yr]
  show "nrows out = nrows raw" by simp
qed

lemma clean_data_failure:
  assumes "data_raw fs = Some raw" and "\<And>out. clean_frame lib raw \<noteq> Inr out"
  shows "\<exists>e. clean_data lib fs = (Some e, fs)"
proof (cases "clean_frame lib raw")
  case (Inl e)
  with assms(1) show ?thesis by (simp add: clean_data_def)
next
  case (Inr out)
  with assms(2) [of out] show ?thesis by simp
qed

lemma sample_steps:
  "drop_columns dropped (normalised_columns raw_sample) = Inr pruned_sample"
  "fix_percentages pct_cols pruned_sample = Inr clamped_sample"
  "fix_density reference_lib clamped_sample = Inr data_sample"
  "knn_impute reference_lib data_sample = Inr numerics_sample"
  "impute_missing reference_lib data_sample = Inr imputed_sample"
  "fix_year reference_lib imputed_sample = Inr cleaned_sample"
  by code_simp+

lemma clean_sample: "clean_frame reference_lib raw_sample = Inr cleaned_sample"
  by (simp add: clean_frame_def sample_steps)

lemma map_of_filter_labels:
  "map_of (filter (\<lambda>(n, c). n \<notin> S) xs) k = (if k \<in> S then None else map_of xs k)"
  by (induction xs) auto

lemma drop_columns_lookup:
  "drop_columns labels df = Inr df' \<Longrightarrow> col \<notin> set labels \<Longrightarrow> get_column df' col = get_column df col"
  by (simp add: get_column_def drop_columns_result(2) map_of_filter_labels)

lemma fix_percentages_get:
  assumes "fix_percentages pct_cols df = Inr df'" and "get_column df col = Inr c"
  shows "get_column df' col = Inr (if col \<in> set pct_cols then clamped c else c)"
proof -
  have d: "distinct pct_cols" by (simp add: pct_cols_def)
  from assms(2) have "map_of (columns df) col = Some c" by (simp add: get_column_Inr)
  then show ?thesis
    by (simp add: get_column_Inr fix_percentages_lookup [OF assms(1) d])
qed

lemma fix_density_others:
  "fix_density lib df = Inr df' \<Longrightarrow> col \<noteq> ''density_n'' \<Longrightarrow> get_column df' col = get_column df col"
  by (erule fix_density_result) (simp add: get_column_def map_of_set_column)

lemma fix_density_column:
  assumes "fix_density lib df = Inr df'" and "get_column df ''density_n'' = Inr (ObjCol ys)"
  shows "get_column df' ''density_n'' = Inr (ObjCol (map (map_option replace_comma) ys))"
proof -
  from assms(1) obtain xs where g: "get_column df ''density_n'' = Inr (ObjCol xs)"
    and d: "df' = set_column df ''density_n'' (ObjCol (map (map_option replace_comma) xs))"
    by (rule fix_density_result)
  from g assms(2) have "xs = ys" by simp
  with d get_column_names [OF g] show ?thesis
    by (simp add: get_column_Inr map_of_set_column)
qed








text \<open>
  C1. The repair replaces every comma by a period in the strings of the density column.
  The column is not reinterpreted: the converted column is built and dropped, so that in
  every cleaned record set the density column is still an object column, and it was in
  the categorical group, not in the numeric one, when the imputer ran.
\<close>

theorem density_column_stays_object:
  assumes "clean_frame lib raw = Inr out"
  shows "\<exists>cells. get_column out ''density_n'' = Inr (ObjValues cells)"
proof -
  from assms obtain pruned clamped_df data imputed where
    dr: "drop_columns dropped (normalised_columns raw) = Inr pruned"
    and pc: "fix_percentages pct_cols pruned = Inr clamped_df"
    and de: "fix_density lib clamped_df = Inr data"
    and im: "impute_missing lib data = Inr imputed"
    and yr: "fix_year lib imputed = Inr out"
    by (rule clean_frame_result)
  from fix_density_object [OF de] obtain xs where
    "get_column data ''density_n'' = Inr (ObjCol xs)" by blast
  from impute_missing_object [OF im this] obtain m where
    "get_column imputed ''density_n'' = Inr (ObjValues (map (fill_cell m) xs))" by blast
  then show ?thesis using fix_year_others [OF yr, of "''density_n''"] by simp
qed

theorem density_column_stays_object_witness:
  "clean_frame reference_lib raw_sample = Inr cleaned_sample \<and>
   get_column (normalised_columns raw_sample) ''density_n'' =
     Inr (ObjCol [Some ''12,5'', Some ''105'', Some ''8'']) \<and>
   get_column cleaned_sample ''density_n'' = Inr (ObjValues [Str ''12.5'', Str ''105'', Str ''8''])"
proof -
  have c: "clean_frame reference_lib raw_sample = Inr cleaned_sample" by (rule clean_sample)
  from density_column_stays_object [OF c] obtain cells where
    g: "get_column cleaned_sample ''density_n'' = Inr (ObjValues cells)" by blast
  have "get_column cleaned_sample ''density_n'' =
      Inr (ObjValues [Str ''12.5'', Str ''105'', Str ''8''])"
    using g by code_simp
  moreover have "get_column (normalised_columns raw_sample) ''density_n'' =
     Inr (ObjCol [Some ''12,5'', Some ''105'', Some ''8''])"
    by code_simp
  ultimately show ?thesis using c by simp
qed

text \<open>
  C2. The imputer is given the numeric columns only, but the median fill that ends the
  imputation step runs over the whole recombined record set. So a categorical column does
  not come out unchanged: its present values are kept, and each of its missing values is
  replaced by the median \<open>m\<close> of the density column (it stays missing only when that
  median is itself NaN). This holds for every categorical column but the density and
  year columns, which other statements rewrite, on every run that succeeds.
\<close>

theorem clean_frame_fills_categorical:
  assumes "clean_frame lib raw = Inr out"
    and "get_column (normalised_columns raw) col = Inr (ObjCol xs)"
    and "col \<notin> set dropped" and "col \<noteq> ''density_n''" and "col \<noteq> ''year''"
  shows "\<exists>ys m. get_column (normalised_columns raw) ''density_n'' = Inr (ObjCol ys) \<and>
           median lib (ObjCol (map (map_option replace_comma) ys)) = Inr m \<and>
           get_column out col = Inr (ObjValues (map (fill_cell m) xs))"
proof -
  from assms(1) obtain pruned clamped_df data imputed where
    dr: "drop_columns dropped (normalised_columns raw) = Inr pruned"
    and pc: "fix_percentages pct_cols pruned = Inr clamped_df"
    and de: "fix_density lib clamped_df = Inr data"
    and im: "impute_missing lib data = Inr imputed"
    and yr: "fix_year lib imputed = Inr out"
    by (rule clean_frame_result)
  have "get_column pruned col = Inr (ObjCol xs)"
    using drop_columns_lookup [OF dr assms(3)] assms(2) by simp
  from fix_percentages_get [OF pc this]
  have "get_column clamped_df col = Inr (ObjCol xs)" by (simp split: if_splits)
  then have gc: "get_column data col = Inr (ObjCol xs)"
    using fix_density_others [OF de assms(4)] by simp
  from de obtain ys where gy: "get_column clamped_df ''density_n'' = Inr (ObjCol ys)"
    by (rule fix_density_result)
  have dn: "''density_n'' \<notin> set dropped" "''density_n'' \<notin> set pct_cols"
    by (simp_all add: dropped_def pct_cols_def)
  have "\<exists>c. get_column pruned ''density_n'' = Inr c"
    using fix_percentages_names [OF pc] get_column_names [OF gy]
    by (auto simp: get_column_def column_names_def map_of_eq_None_iff split: option.splits)
  then obtain c where gp: "get_column pruned ''density_n'' = Inr c" by blast
  from fix_percentages_get [OF pc gp] dn(2) gy have "c = ObjCol ys" by simp
  with gp drop_columns_lookup [OF dr dn(1)]
  have gr: "get_column (normalised_columns raw) ''density_n'' = Inr (ObjCol ys)" by simp
  have gdd: "get_column data ''density_n'' = Inr (ObjCol (map (map_option replace_comma) ys))"
    by (rule fix_density_column [OF de gy])
  from impute_missing_object [OF im gc] gdd obtain m where
    md: "median lib (ObjCol (map (map_option replace_comma) ys)) = Inr m"
    and gi: "get_column imputed col = Inr (ObjValues (map (fill_cell m) xs))"
    by auto
  from gi fix_year_others [OF yr assms(5)]
  have "get_column out col = Inr (ObjValues (map (fill_cell m) xs))" by simp
  with gr md show ?thesis by blast
qed

theorem clean_frame_fills_categorical_witness:
  "clean_frame reference_lib raw_sample = Inr cleaned_sample \<and>
   get_column (normalised_columns raw_sample) ''entity'' =
     Inr (ObjCol [Some ''Indonesia'', None, Some ''Malaysia'']) \<and>
   get_column (normalised_columns raw_sample) ''density_n'' =
     Inr (ObjCol [Some ''12,5'', Some ''105'', Some ''8'']) \<and>
   median reference_lib (ObjCol [Some ''12.5'', Some ''105'', Some ''8'']) = Inr (Some (25 / 2)) \<and>
   get_column cleaned_sample ''entity'' =
     Inr (ObjValues [Str ''Indonesia'', Num (25 / 2), Str ''Malaysia''])"
proof -
  have c: "clean_frame reference_lib raw_sample = Inr cleaned_sample" by (rule clean_sample)
  have g: "get_column (normalised_columns raw_sample) ''entity'' =
      Inr (ObjCol [Some ''Indonesia'', None, Some ''Malaysia''])"
    and gd: "get_column (normalised_columns raw_sample) ''density_n'' =
      Inr (ObjCol [Some ''12,5'', Some ''105'', Some ''8''])"
    by code_simp+
  have r: "map (map_option replace_comma) [Some ''12,5'', Some ''105'', Some ''8''] =
      [Some ''12.5'', Some ''105'', Some ''8'']"
    by code_simp
  have md: "median reference_lib (ObjCol [Some ''12.5'', Some ''105'', Some ''8'']) =
      Inr (Some (25 / 2))"
    by code_simp
  have n: "''entity'' \<notin> set dropped" "''entity'' \<noteq> ''density_n''" "''entity'' \<noteq> ''year''"
    by (simp_all add: dropped_def)
  from clean_frame_fills_categorical [OF c g n] obtain ys m where
    "get_column (normalised_columns raw_sample) ''density_n'' = Inr (ObjCol ys)"
    and "median reference_lib (ObjCol (map (map_option replace_comma) ys)) = Inr m"
    and o: "get_column cleaned_sample ''entity'' =
      Inr (ObjValues (map (fill_cell m) [Some ''Indonesia'', None, Some ''Malaysia'']))"
    by blast
  with gd r md have "m = Some (25 / 2)" by simp
  with o have "get_column cleaned_sample ''entity'' =
      Inr (ObjValues [Str ''Indonesia'', Num (25 / 2), Str ''Malaysia''])"
    by simp
  with c g gd md show ?thesis by simp
qed





text \<open>
  C7. When one of the labels \<open>clean_data\<close> names (the two columns to drop, the four
  percentage columns, the density column \<open>density_n\<close>, the year column) is not among the
  normalised labels, \<open>clean_data\<close> ends in an exception and the files are as they were:
  no cleaned artifact is written.
\<close>

theorem clean_data_missing_column:
  assumes "data_raw fs = Some raw"
    and "col \<in> set required_columns"
    and "col \<notin> set (column_names (normalised_columns raw))"
  shows "\<exists>e. clean_data lib fs = (Some e, fs)"
proof (rule clean_data_failure [OF assms(1)])
  fix out
  show "clean_frame lib raw \<noteq> Inr out"
  proof
    assume "clean_frame lib raw = Inr out"
    from clean_frame_requires [OF this] assms(2,3) show False by blast
  qed
qed

theorem clean_data_missing_column_witness:
  "''year'' \<in> set required_columns \<and>
   ''year'' \<notin> set (column_names (normalised_columns sample_without_year)) \<and>
   (\<exists>e. clean_data reference_lib \<lparr>data_raw = Some sample_without_year, data_clean = None\<rparr> =
      (Some e, \<lparr>data_raw = Some sample_without_year, data_clean = None\<rparr>))"
proof -
  have r: "data_raw \<lparr>data_raw = Some sample_without_year, data_clean = None\<rparr> =
      Some sample_without_year"
    by simp
  have m: "''year'' \<in> set required_columns" by code_simp
  have a: "''year'' \<notin> set (column_names (normalised_columns sample_without_year))"
    by code_simp
  from clean_data_missing_column [OF r m a, of reference_lib] m a show ?thesis by simp
qed

text \<open>
  C8. On a record set with no row \<open>clean_data\<close> ends in an exception (at the latest in
  the imputer, which refuses an array with no sample) and writes no cleaned artifact.
\<close>

theorem clean_data_empty_fails:
  assumes "data_raw fs = Some raw" and "nrows raw = 0"
  shows "\<exists>e. clean_data lib fs = (Some e, fs)"
proof (rule clean_data_failure [OF assms(1)])
  fix out
  show "clean_frame lib raw \<noteq> Inr out"
  proof
    assume "clean_frame lib raw = Inr out"
    from clean_frame_nonempty(1) [OF this] assms(2) show False by simp
  qed
qed

theorem clean_data_empty_fails_witness:
  "nrows header_only_sample = 0 \<and>
   (\<exists>e. clean_data reference_lib \<lparr>data_raw = Some header_only_sample, data_clean = None\<rparr> =
      (Some e, \<lparr>data_raw = Some header_only_sample, data_clean = None\<rparr>))"
proof -
  have r: "data_raw \<lparr>data_raw = Some header_only_sample, data_clean = None\<rparr> =
      Some header_only_sample"
    by simp
  have z: "nrows header_only_sample = 0" by (simp add: header_only_sample_def)
  from clean_data_empty_fails [OF r z, of reference_lib] z show ?thesis by simp
qed

text \<open>
  C9. When \<open>clean_data\<close> succeeds on a raw record set (every column of which has one
  entry for each row), the cleaned record set has the same number of rows, and every one
  of its columns has that many entries.
\<close>

theorem clean_frame_keeps_rows:
  assumes "clean_frame lib raw = Inr out" and "rectangular raw"
  shows "nrows out = nrows raw \<and>
         list_all (\<lambda>(n, c). cleaned_length c = nrows raw) (columns out)"
proof -
  from assms(1) obtain pruned clamped_df data imputed where
    dr: "drop_columns dropped (normalised_columns raw) = Inr pruned"
    and pc: "fix_percentages pct_cols pruned = Inr clamped_df"
    and de: "fix_density lib clamped_df = Inr data"
    and im: "impute_missing lib data = Inr imputed"
    and yr: "fix_year lib imputed = Inr out"
    by (rule clean_frame_result)
  have np: "nrows pruned = nrows raw"
    using drop_columns_result(3) [OF dr] by (simp add: normalised_columns_def)
  have "rectangular pruned"
    using assms(2) np drop_columns_result(2) [OF dr]
    by (auto simp: rectangular_def normalised_columns_def list_all_iff)
  then have "rectangular data"
    by (intro fix_density_rectangular [OF de] fix_percentages_rectangular [OF pc])
  moreover have nd: "nrows data = nrows raw"
    using np fix_percentages_names [OF pc] fix_density_names [OF de] by simp
  ultimately have "list_all (\<lambda>(n, c). cleaned_length c = nrows raw) (columns imputed)"
    using impute_missing_lengths [OF im] by simp
  then have "list_all (\<lambda>(n, c). cleaned_length c = nrows raw) (columns out)"
    by (rule fix_year_lengths [OF yr])
  with clean_frame_nonempty(2) [OF assms(1)] show ?thesis by simp
qed

theorem clean_frame_keeps_rows_witness:
  "clean_frame reference_lib raw_sample = Inr cleaned_sample \<and> rectangular raw_sample \<and>
   nrows raw_sample = 3 \<and> nrows cleaned_sample = 3 \<and>
   list_all (\<lambda>(n, c). cleaned_length c = 3) (columns cleaned_sample)"
proof -
  have c: "clean_frame reference_lib raw_sample = Inr cleaned_sample" by (rule clean_sample)
  have r: "rectangular raw_sample" by code_simp
  have n: "nrows raw_sample = 3" by (simp add: raw_sample_def)
  from clean_frame_keeps_rows [OF c r] c r n show ?thesis by simp
qed

text \<open>
  C10. When \<open>clean_data\<close> succeeds (on a record set whose normalised labels are
  distinct), the columns of the cleaned record set are the kept columns regrouped: first
  those of object dtype, in their raw order, then the numeric ones, in their raw order.
  The raw positions are not what decides the order.
\<close>

theorem clean_frame_column_order:
  assumes "clean_frame lib raw = Inr out"
    and "distinct (column_names (normalised_columns raw))"
  shows "column_names out =
           map fst (filter (\<lambda>(n, c). dtype_of c = object) (kept_columns raw)) @
           map fst (filter (\<lambda>(n, c). dtype_of c \<in> {int64, float64}) (kept_columns raw))"
proof -
  from assms(1) obtain pruned clamped_df data imputed where
    dr: "drop_columns dropped (normalised_columns raw) = Inr pruned"
    and pc: "fix_percentages pct_cols pruned = Inr clamped_df"
    and de: "fix_density lib clamped_df = Inr data"
    and im: "impute_missing lib data = Inr imputed"
    and yr: "fix_year lib imputed = Inr out"
    by (rule clean_frame_result)
  have k: "columns pruned = kept_columns raw"
    using drop_columns_result(2) [OF dr] by (simp add: kept_columns_def)
  have dp: "distinct (column_names pruned)"
    using assms(2) by (simp add: k kept_columns_def column_names_def distinct_map_filter)
  have dc: "distinct (column_names clamped_df)"
    using dp fix_percentages_names [OF pc] by simp
  have s: "schema data = schema pruned"
    using fix_density_schema [OF de dc] fix_percentages_schema [OF pc dp] by simp
  have o: "column_names (select_object df) =
      map fst (filter (\<lambda>(n, t). t = object) (schema df))" for df
    by (simp add: column_names_def select_object_def schema_def filter_map o_def case_prod_unfold)
  have n: "column_names (select_number df) =
      map fst (filter (\<lambda>(n, t). t \<in> {int64, float64}) (schema df))" for df
    by (simp add: column_names_def select_number_def schema_def filter_map o_def case_prod_unfold)
  have "column_names out = column_names (select_object data) @ column_names (select_number data)"
    using fix_year_names [OF yr] impute_missing_names(1) [OF im] by simp
  also have "\<dots> = column_names (select_object pruned) @ column_names (select_number pruned)"
    by (simp only: o n s)
  finally show ?thesis
    by (simp add: column_names_def select_object_def select_number_def k)
qed

theorem clean_frame_column_order_witness:
  "clean_frame reference_lib raw_sample = Inr cleaned_sample \<and>
   distinct (column_names (normalised_columns raw_sample)) \<and>
   map fst (kept_columns raw_sample) =
     [''entity'', ''year'', ''access_to_electricity'', ''access_to_clean_fuels_for_cooking'',
      ''renewable_energy_share_in_the_total_final_energy_consumption'',
      ''low_carbon_electricity'', ''gdp_growth'', ''density_n''] \<and>
   column_names cleaned_sample =
     [''entity'', ''density_n'', ''year'', ''access_to_electricity'',
      ''access_to_clean_fuels_for_cooking'',
      ''renewable_energy_share_in_the_total_final_energy_consumption'',
      ''low_carbon_electricity'', ''gdp_growth'']"
proof -
  have c: "clean_frame reference_lib raw_sample = Inr cleaned_sample" by (rule clean_sample)
  have d: "distinct (column_names (normalised_columns raw_sample))" by code_simp
  have k: "kept_columns raw_sample = columns pruned_sample" by code_simp
  have "column_names cleaned_sample =
      map fst (filter (\<lambda>(n, c). dtype_of c = object) (columns pruned_sample)) @
      map fst (filter (\<lambda>(n, c). dtype_of c \<in> {int64, float64}) (columns pruned_sample))"
    using clean_frame_column_order [OF c d] by (simp only: k)
  then have "column_names cleaned_sample =
     [''entity'', ''density_n'', ''year'', ''access_to_electricity'',
      ''access_to_clean_fuels_for_cooking'',
      ''renewable_energy_share_in_the_total_final_energy_consumption'',
      ''low_carbon_electricity'', ''gdp_growth'']"
    by (simp add: pruned_sample_def)
  moreover have "map fst (kept_columns raw_sample) =
     [''entity'', ''year'', ''access_to_electricity'', ''access_to_clean_fuels_for_cooking'',
      ''renewable_energy_share_in_the_total_final_energy_consumption'',
      ''low_carbon_electricity'', ''gdp_growth'', ''density_n'']"
    by (simp add: k pruned_sample_def)
  ultimately show ?thesis using c d by simp
qed

end
